theory Spec2Isabelle
  imports Main
begin

section \<open>Python values, errors and the object store\<close>

text \<open>
  The module \<^verbatim>\<open>lib/classes/many_to_many.py\<close> is dynamically typed: every constructor
  and setter receives an arbitrary Python object and tests it with \<^verbatim>\<open>isinstance\<close>.
  A value is therefore a \<open>pyval\<close>. Instances of the three classes are references into
  an object store; the classes define neither \<^verbatim>\<open>__eq__\<close> nor \<^verbatim>\<open>__hash__\<close>, so
  \<^verbatim>\<open>==\<close> and dictionary keys compare references. A Python \<^verbatim>\<open>str\<close> is a \<open>string\<close>
  whose elements stand for its code points, so that \<^verbatim>\<open>len\<close> is \<open>length\<close>.
\<close>

datatype pyval =
    PyNone
  | PyBool bool
  | PyInt int
  | PyStr string
  | PyList "pyval list"
  | AuthorRef nat
  | MagazineRef nat
  | ArticleRef nat

text \<open>
  Every \<^verbatim>\<open>raise Exception("...")\<close> of the source is \<open>Exception\<close> with its message.
  \<open>ValueError\<close> and \<open>TypeError\<close> are what the builtin \<^verbatim>\<open>max\<close> raises on an empty
  sequence and on a comparison with \<^verbatim>\<open>None\<close>.
\<close>

datatype error = Exception string | ValueError | TypeError

record author =
  author_name :: pyval

record magazine =
  magazine_name :: pyval
  magazine_category :: pyval

text \<open>
  \<^verbatim>\<open>_author\<close> and \<^verbatim>\<open>_magazine\<close> are only ever written behind an \<^verbatim>\<open>isinstance\<close>
  guard (constructor and setters), so the fields hold references.
\<close>

record article =
  article_author :: nat
  article_magazine :: nat
  article_title :: pyval

text \<open>
  The store keeps the objects of each class in a list; a reference is the index of the
  object, and a new object is put at the end. \<open>Article_all\<close> and \<open>Magazine_all\<close> are
  the class attributes \<^verbatim>\<open>Article.all\<close> and \<^verbatim>\<open>Magazine.all\<close>.
\<close>

record state =
  authors :: "author list"
  magazines :: "magazine list"
  articles :: "article list"
  Article_all :: "nat list"
  Magazine_all :: "nat list"

text \<open>
  An operation returns what the call produced (the error raised, or the value returned)
  together with the store it leaves behind, so that what an operation did before it
  raised stays visible.
\<close>

type_synonym 'a result = "(error + 'a) \<times> state"

definition init_state :: state where
  "init_state = \<lparr>authors = [], magazines = [], articles = [], Article_all = [], Magazine_all = []\<rparr>"

text \<open>
  Python has no dangling references: whatever a registry refers to is in the store. The
  operations below keep this.
\<close>

definition wf_state :: "state \<Rightarrow> bool" where
  "wf_state s \<longleftrightarrow>
     (\<forall>r \<in> set (Article_all s). r < length (articles s)) \<and>
     (\<forall>m \<in> set (Magazine_all s). m < length (magazines s))"

section \<open>Article\<close>

definition Article_init :: "state \<Rightarrow> pyval \<Rightarrow> pyval \<Rightarrow> pyval \<Rightarrow> nat result" where
  "Article_init s author magazine title =
     (case author of
        AuthorRef a \<Rightarrow>
          (case magazine of
             MagazineRef m \<Rightarrow>
               (case title of
                  PyStr t \<Rightarrow>
                    if \<not> (5 \<le> length t \<and> length t \<le> 50)
                    then (Inl (Exception ''Title must be between 5 and 50 characters''), s)
                    else
                      let self = length (articles s) in
                      (Inr self,
                           s\<lparr>articles := articles s @
                                [\<lparr>article_author = a, article_magazine = m, article_title = title\<rparr>],
                             Article_all := Article_all s @ [self]\<rparr>)
                | _ \<Rightarrow> (Inl (Exception ''Title must be a string''), s))
           | _ \<Rightarrow> (Inl (Exception ''Magazine must be an instance of Magazine''), s))
      | _ \<Rightarrow> (Inl (Exception ''Author must be an instance of Author''), s))"

definition Article_title :: "state \<Rightarrow> nat \<Rightarrow> pyval" where
  "Article_title s self = article_title (articles s ! self)"

definition Article_title_set :: "state \<Rightarrow> nat \<Rightarrow> pyval \<Rightarrow> unit result" where
  "Article_title_set s self v = (Inr (), s)"

definition Article_author :: "state \<Rightarrow> nat \<Rightarrow> nat" where
  "Article_author s self = article_author (articles s ! self)"

definition Article_author_set :: "state \<Rightarrow> nat \<Rightarrow> pyval \<Rightarrow> unit result" where
  "Article_author_set s self v =
     (case v of
        AuthorRef a \<Rightarrow>
          (Inr (), s\<lparr>articles := (articles s)[self := (articles s ! self)\<lparr>article_author := a\<rparr>]\<rparr>)
      | _ \<Rightarrow> (Inl (Exception ''Author must be an instance of Author''), s))"

definition Article_magazine :: "state \<Rightarrow> nat \<Rightarrow> nat" where
  "Article_magazine s self = article_magazine (articles s ! self)"

definition Article_magazine_set :: "state \<Rightarrow> nat \<Rightarrow> pyval \<Rightarrow> unit result" where
  "Article_magazine_set s self v =
     (case v of
        MagazineRef m \<Rightarrow>
          (Inr (), s\<lparr>articles := (articles s)[self := (articles s ! self)\<lparr>article_magazine := m\<rparr>]\<rparr>)
      | _ \<Rightarrow> (Inl (Exception ''Magazine must be an instance of Magazine''), s))"

section \<open>Author\<close>

definition Author_init :: "state \<Rightarrow> pyval \<Rightarrow> nat result" where
  "Author_init s name =
     (case name of
        PyStr n \<Rightarrow>
          if length n = 0 then (Inl (Exception ''Name must be longer than 0 characters''), s)
          else (Inr (length (authors s)), s\<lparr>authors := authors s @ [\<lparr>author_name = name\<rparr>]\<rparr>)
      | _ \<Rightarrow> (Inl (Exception ''Name must be a string''), s))"

definition Author_name :: "state \<Rightarrow> nat \<Rightarrow> pyval" where
  "Author_name s self = author_name (authors s ! self)"

definition Author_name_set :: "state \<Rightarrow> nat \<Rightarrow> pyval \<Rightarrow> unit result" where
  "Author_name_set s self v = (Inr (), s)"

definition Author_articles :: "state \<Rightarrow> nat \<Rightarrow> nat list" where
  "Author_articles s self = filter (\<lambda>article. Article_author s article = self) (Article_all s)"

definition Author_add_article :: "state \<Rightarrow> nat \<Rightarrow> pyval \<Rightarrow> pyval \<Rightarrow> nat result" where
  "Author_add_article s self magazine title = Article_init s (AuthorRef self) magazine title"

section \<open>Magazine\<close>

definition Magazine_init :: "state \<Rightarrow> pyval \<Rightarrow> pyval \<Rightarrow> nat result" where
  "Magazine_init s name category =
     (case name of
        PyStr n \<Rightarrow>
          if \<not> (2 \<le> length n \<and> length n \<le> 16)
          then (Inl (Exception ''Name must be between 2 and 16 characters''), s)
          else
            (case category of
               PyStr c \<Rightarrow>
                 if length c = 0 then (Inl (Exception ''Category must be longer than 0 characters''), s)
                 else
                   let self = length (magazines s) in
                   (Inr self,
                        s\<lparr>magazines := magazines s @
                             [\<lparr>magazine_name = name, magazine_category = category\<rparr>],
                          Magazine_all := Magazine_all s @ [self]\<rparr>)
             | _ \<Rightarrow> (Inl (Exception ''Category must be a string''), s))
      | _ \<Rightarrow> (Inl (Exception ''Name must be a string''), s))"

definition Magazine_name :: "state \<Rightarrow> nat \<Rightarrow> pyval" where
  "Magazine_name s self = magazine_name (magazines s ! self)"

definition Magazine_name_set :: "state \<Rightarrow> nat \<Rightarrow> pyval \<Rightarrow> unit result" where
  "Magazine_name_set s self v =
     (case v of
        PyStr n \<Rightarrow>
          if 2 \<le> length n \<and> length n \<le> 16
          then (Inr (), s\<lparr>magazines := (magazines s)[self := (magazines s ! self)\<lparr>magazine_name := v\<rparr>]\<rparr>)
          else (Inr (), s)
      | _ \<Rightarrow> (Inr (), s))"

definition Magazine_category :: "state \<Rightarrow> nat \<Rightarrow> pyval" where
  "Magazine_category s self = magazine_category (magazines s ! self)"

definition Magazine_category_set :: "state \<Rightarrow> nat \<Rightarrow> pyval \<Rightarrow> unit result" where
  "Magazine_category_set s self v =
     (case v of
        PyStr c \<Rightarrow>
          if length c > 0
          then (Inr (), s\<lparr>magazines := (magazines s)[self := (magazines s ! self)\<lparr>magazine_category := v\<rparr>]\<rparr>)
          else (Inr (), s)
      | _ \<Rightarrow> (Inr (), s))"

definition Magazine_articles :: "state \<Rightarrow> nat \<Rightarrow> nat list" where
  "Magazine_articles s self = filter (\<lambda>article. Article_magazine s article = self) (Article_all s)"

section \<open>Dictionaries and the builtin max\<close>

text \<open>
  A Python \<^verbatim>\<open>dict\<close> iterates over its keys in the order in which they were first
  inserted, and assigning to a key that is present keeps the key in its place. A
  dictionary is therefore a list of pairs with \<open>dict_lookup d k\<close> for \<^verbatim>\<open>d.get(k)\<close>,
  \<open>dict_get d k v\<close> for \<^verbatim>\<open>d.get(k, v)\<close> and \<open>dict_set d k v\<close> for \<^verbatim>\<open>d[k] = v\<close>.
\<close>

type_synonym ('k, 'v) dict = "('k \<times> 'v) list"

fun dict_lookup :: "('k, 'v) dict \<Rightarrow> 'k \<Rightarrow> 'v option" where
  "dict_lookup [] k = None"
| "dict_lookup ((k', v) # d) k = (if k' = k then Some v else dict_lookup d k)"

definition dict_get :: "('k, 'v) dict \<Rightarrow> 'k \<Rightarrow> 'v \<Rightarrow> 'v" where
  "dict_get d k dflt = (case dict_lookup d k of None \<Rightarrow> dflt | Some v \<Rightarrow> v)"

fun dict_set :: "('k, 'v) dict \<Rightarrow> 'k \<Rightarrow> 'v \<Rightarrow> ('k, 'v) dict" where
  "dict_set [] k v = [(k, v)]"
| "dict_set ((k', v') # d) k v =
     (if k' = k then (k', v) # d else (k', v') # dict_set d k v)"

text \<open>
  The counting loop of \<^verbatim>\<open>contributing_authors\<close> and \<^verbatim>\<open>top_publisher\<close>:
  \<^verbatim>\<open>for article in ...: k = article.attr; counts[k] = counts.get(k, 0) + 1\<close>.
\<close>

fun count_loop :: "('a \<Rightarrow> 'k) \<Rightarrow> ('k, int) dict \<Rightarrow> 'a list \<Rightarrow> ('k, int) dict" where
  "count_loop attr counts [] = counts"
| "count_loop attr counts (article # rest) =
     (let k = attr article
      in count_loop attr (dict_set counts k (dict_get counts k 0 + 1)) rest)"

text \<open>
  \<^verbatim>\<open>max(iterable, key=f)\<close>: the first item becomes the maximum; a later item replaces
  it only when its key is strictly greater. An empty iterable raises \<^verbatim>\<open>ValueError\<close>,
  and comparing with a key that is \<^verbatim>\<open>None\<close> raises \<^verbatim>\<open>TypeError\<close>.
\<close>

fun max_loop :: "('a \<Rightarrow> int option) \<Rightarrow> 'a \<Rightarrow> int option \<Rightarrow> 'a list \<Rightarrow> error + 'a" where
  "max_loop key maxitem maxval [] = Inr maxitem"
| "max_loop key maxitem maxval (item # rest) =
     (case key item of
        None \<Rightarrow> Inl TypeError
      | Some val \<Rightarrow>
          (case maxval of
             None \<Rightarrow> Inl TypeError
           | Some mv \<Rightarrow>
               if val > mv then max_loop key item (Some val) rest
               else max_loop key maxitem maxval rest))"

definition py_max :: "'a list \<Rightarrow> ('a \<Rightarrow> int option) \<Rightarrow> error + 'a" where
  "py_max xs key =
     (case xs of [] \<Rightarrow> Inl ValueError | item # rest \<Rightarrow> max_loop key item (key item) rest)"

text \<open>
  \<^verbatim>\<open>list(set(xs))\<close> is a list of the elements of \<open>xs\<close> without repetition, in an order
  that Python does not fix (the hash of a string changes from run to run). It is a
  relation: \<open>list_of_set xs ys\<close> holds when \<open>ys\<close> is a possible result.
\<close>

definition list_of_set :: "'a list \<Rightarrow> 'a list \<Rightarrow> bool" where
  "list_of_set xs ys \<longleftrightarrow> distinct ys \<and> set ys = set xs"

section \<open>Queries\<close>

definition Author_magazines :: "state \<Rightarrow> nat \<Rightarrow> nat list \<Rightarrow> bool" where
  "Author_magazines s self res =
     list_of_set (map (Article_magazine s) (Author_articles s self)) res"

text \<open>The categories are strings, by the invariant of magazines, so that the
  equality of \<^verbatim>\<open>set\<close> is the equality of strings.\<close>

definition Author_topic_areas :: "state \<Rightarrow> nat \<Rightarrow> pyval list option \<Rightarrow> bool" where
  "Author_topic_areas s self res =
     (let arts = Author_articles s self in
      if arts = [] then res = None
      else (case res of
              None \<Rightarrow> False
            | Some ys \<Rightarrow>
                list_of_set (map (\<lambda>article. Magazine_category s (Article_magazine s article)) arts) ys))"

definition Magazine_contributors :: "state \<Rightarrow> nat \<Rightarrow> nat list \<Rightarrow> bool" where
  "Magazine_contributors s self res =
     list_of_set (map (Article_author s) (Magazine_articles s self)) res"

definition Magazine_article_titles :: "state \<Rightarrow> nat \<Rightarrow> pyval list option" where
  "Magazine_article_titles s self =
     (let arts = Magazine_articles s self in
      if arts = [] then None else Some (map (Article_title s) arts))"

definition Magazine_contributing_authors :: "state \<Rightarrow> nat \<Rightarrow> nat list option" where
  "Magazine_contributing_authors s self =
     (let author_counts = count_loop (Article_author s) [] (Magazine_articles s self);
          result = map fst (filter (\<lambda>(author, count). count > 2) author_counts)
      in if result \<noteq> [] then Some result else None)"

definition Magazine_top_publisher :: "state \<Rightarrow> error + nat option" where
  "Magazine_top_publisher s =
     (if Article_all s = [] then Inr None
      else
        let magazine_counts = count_loop (Article_magazine s) [] (Article_all s)
        in (case py_max (map fst magazine_counts) (dict_lookup magazine_counts) of
              Inl e \<Rightarrow> Inl e
            | Inr magazine \<Rightarrow> Inr (Some magazine)))"

section \<open>Counts used in the statements\<close>

text \<open>The number of articles of \<^verbatim>\<open>Article.all\<close> that author \<open>a\<close> has in magazine \<open>m\<close>.\<close>

definition article_count :: "state \<Rightarrow> nat \<Rightarrow> nat \<Rightarrow> nat" where
  "article_count s m a =
     length (filter (\<lambda>r. Article_magazine s r = m \<and> Article_author s r = a) (Article_all s))"

text \<open>The magazines of the articles of \<^verbatim>\<open>Article.all\<close>, in registry order, and the
  first of them that no magazine exceeds in number of articles.\<close>

definition registry_magazines :: "state \<Rightarrow> nat list" where
  "registry_magazines s = map (Article_magazine s) (Article_all s)"

definition first_top_magazine :: "state \<Rightarrow> nat option" where
  "first_top_magazine s =
     List.find
       (\<lambda>m. \<forall>m' \<in> set (registry_magazines s).
               length (Magazine_articles s m') \<le> length (Magazine_articles s m))
       (registry_magazines s)"

section \<open>Invariant of magazines\<close>

text \<open>What the data model requires of a magazine: \<open>name\<close> a string of 2 to 16
  characters and \<open>category\<close> a non-empty string.\<close>

definition magazine_ok :: "magazine \<Rightarrow> bool" where
  "magazine_ok mg \<longleftrightarrow>
     (case magazine_name mg of PyStr n \<Rightarrow> 2 \<le> length n \<and> length n \<le> 16 | _ \<Rightarrow> False) \<and>
     (case magazine_category mg of PyStr c \<Rightarrow> 0 < length c | _ \<Rightarrow> False)"

definition magazines_ok :: "state \<Rightarrow> bool" where
  "magazines_ok s \<longleftrightarrow> list_all magazine_ok (magazines s)"

section \<open>Reachable stores\<close>

text \<open>The stores a client can build: it starts with empty registries and calls the
  constructors and assigns to the properties, with any arguments; a call that raises
  leaves the store it had reached.\<close>

inductive reachable :: "state \<Rightarrow> bool" where
  start: "reachable init_state"
| new_author: "reachable s \<Longrightarrow> reachable (snd (Author_init s name))"
| new_magazine: "reachable s \<Longrightarrow> reachable (snd (Magazine_init s name category))"
| new_article: "reachable s \<Longrightarrow> reachable (snd (Article_init s author magazine title))"
| set_title: "reachable s \<Longrightarrow> reachable (snd (Article_title_set s self v))"
| set_author: "reachable s \<Longrightarrow> reachable (snd (Article_author_set s self v))"
| set_magazine: "reachable s \<Longrightarrow> reachable (snd (Article_magazine_set s self v))"
| set_author_name: "reachable s \<Longrightarrow> reachable (snd (Author_name_set s self v))"
| set_name: "reachable s \<Longrightarrow> reachable (snd (Magazine_name_set s self v))"
| set_category: "reachable s \<Longrightarrow> reachable (snd (Magazine_category_set s self v))"

section \<open>Example stores\<close>

text \<open>Two authors and two magazines; the first magazine has three articles, all by the
  first author, the second magazine has one.\<close>

definition example_state :: state where
  "example_state =
     \<lparr>authors = [\<lparr>author_name = PyStr ''Ann''\<rparr>, \<lparr>author_name = PyStr ''Bob''\<rparr>],
      magazines = [\<lparr>magazine_name = PyStr ''Vogue'', magazine_category = PyStr ''Fashion''\<rparr>,
                   \<lparr>magazine_name = PyStr ''Wired'', magazine_category = PyStr ''Tech''\<rparr>],
      articles = [\<lparr>article_author = 0, article_magazine = 0, article_title = PyStr ''First story''\<rparr>,
                  \<lparr>article_author = 0, article_magazine = 0, article_title = PyStr ''Second story''\<rparr>,
                  \<lparr>article_author = 1, article_magazine = 1, article_title = PyStr ''Gadgets''\<rparr>,
                  \<lparr>article_author = 0, article_magazine = 0, article_title = PyStr ''Third story''\<rparr>],
      Article_all = [0, 1, 2, 3],
      Magazine_all = [0, 1]\<rparr>"

text \<open>A tie: the second magazine is seen first, and both have two articles.\<close>

definition tie_state :: state where
  "tie_state =
     \<lparr>authors = [\<lparr>author_name = PyStr ''Ann''\<rparr>],
      magazines = [\<lparr>magazine_name = PyStr ''Vogue'', magazine_category = PyStr ''Fashion''\<rparr>,
                   \<lparr>magazine_name = PyStr ''Wired'', magazine_category = PyStr ''Tech''\<rparr>],
      articles = [\<lparr>article_author = 0, article_magazine = 1, article_title = PyStr ''Gadgets''\<rparr>,
                  \<lparr>article_author = 0, article_magazine = 0, article_title = PyStr ''First story''\<rparr>,
                  \<lparr>article_author = 0, article_magazine = 0, article_title = PyStr ''Second story''\<rparr>,
                  \<lparr>article_author = 0, article_magazine = 1, article_title = PyStr ''Robots''\<rparr>],
      Article_all = [0, 1, 2, 3],
      Magazine_all = [0, 1]\<rparr>"

section \<open>Constructor validation\<close>

text \<open>
  C8. \<^verbatim>\<open>Author(name)\<close> raises exactly when \<open>name\<close> is not a string or is the empty
  string, so \<^verbatim>\<open>Author("")\<close> fails and \<^verbatim>\<open>Author("A")\<close> succeeds;
  \<^verbatim>\<open>Magazine(name, category)\<close> raises exactly when \<open>name\<close> is not a string of length
  2 to 16 or \<open>category\<close> is not a non-empty string. What is raised is in every case
  the validation error of the source, the builtin \<^verbatim>\<open>Exception\<close> with the message of
  the first guard that fails, never another kind of error, and the store is left as it
  was.
\<close>

theorem constructors_raise_iff:
  "((\<exists>e s'. Author_init s name = (Inl e, s')) \<longleftrightarrow> \<not> (\<exists>n. name = PyStr n \<and> length n \<noteq> 0))
   \<and> (\<exists>e s'. Author_init s (PyStr '''') = (Inl e, s'))
   \<and> (\<exists>r s'. Author_init s (PyStr ''A'') = (Inr r, s'))
   \<and> ((\<exists>e s'. Magazine_init s mname category = (Inl e, s')) \<longleftrightarrow>
        \<not> (\<exists>n. mname = PyStr n \<and> 2 \<le> length n \<and> length n \<le> 16)
        \<or> \<not> (\<exists>c. category = PyStr c \<and> length c \<noteq> 0))
   \<and> (\<forall>e s'. Author_init s name = (Inl e, s') \<longrightarrow>
          s' = s \<and>
          e \<in> {Exception ''Name must be a string'',
               Exception ''Name must be longer than 0 characters''})
   \<and> (\<not> (\<exists>n. name = PyStr n) \<longrightarrow>
          Author_init s name = (Inl (Exception ''Name must be a string''), s))
   \<and> Author_init s (PyStr '''')
        = (Inl (Exception ''Name must be longer than 0 characters''), s)
   \<and> (\<forall>e s'. Magazine_init s mname category = (Inl e, s') \<longrightarrow>
          s' = s \<and>
          e \<in> {Exception ''Name must be a string'',
               Exception ''Name must be between 2 and 16 characters'',
               Exception ''Category must be a string'',
               Exception ''Category must be longer than 0 characters''})
   \<and> (\<not> (\<exists>n. mname = PyStr n) \<longrightarrow>
          Magazine_init s mname category = (Inl (Exception ''Name must be a string''), s))
   \<and> (\<forall>n. mname = PyStr n \<and> \<not> (2 \<le> length n \<and> length n \<le> 16) \<longrightarrow>
          Magazine_init s mname category
            = (Inl (Exception ''Name must be between 2 and 16 characters''), s))
   \<and> (\<forall>n. mname = PyStr n \<and> 2 \<le> length n \<and> length n \<le> 16
            \<and> \<not> (\<exists>c. category = PyStr c) \<longrightarrow>
          Magazine_init s mname category = (Inl (Exception ''Category must be a string''), s))
   \<and> (\<forall>n. mname = PyStr n \<and> 2 \<le> length n \<and> length n \<le> 16 \<and> category = PyStr '''' \<longrightarrow>
          Magazine_init s mname category
            = (Inl (Exception ''Category must be longer than 0 characters''), s))"
proof -
  have a_iff: "(\<exists>e s'. Author_init s name = (Inl e, s')) \<longleftrightarrow>
      \<not> (\<exists>n. name = PyStr n \<and> length n \<noteq> 0)"
    by (cases name) (auto simp: Author_init_def)
  have a_empty: "Author_init s (PyStr '''')
        = (Inl (Exception ''Name must be longer than 0 characters''), s)"
    by (simp add: Author_init_def)
  have a_ok: "\<exists>r s'. Author_init s (PyStr ''A'') = (Inr r, s')"
    by (simp add: Author_init_def)
  have a_kind: "\<forall>e s'. Author_init s name = (Inl e, s') \<longrightarrow>
          s' = s \<and>
          e \<in> {Exception ''Name must be a string'',
               Exception ''Name must be longer than 0 characters''}"
    by (cases name) (auto simp: Author_init_def split: if_splits)
  have a_type: "\<not> (\<exists>n. name = PyStr n) \<longrightarrow>
          Author_init s name = (Inl (Exception ''Name must be a string''), s)"
    by (cases name) (simp_all add: Author_init_def)
  have m_iff: "(\<exists>e s'. Magazine_init s mname category = (Inl e, s')) \<longleftrightarrow>
        \<not> (\<exists>n. mname = PyStr n \<and> 2 \<le> length n \<and> length n \<le> 16)
        \<or> \<not> (\<exists>c. category = PyStr c \<and> length c \<noteq> 0)"
    by (cases mname; cases category) (auto simp: Magazine_init_def Let_def)
  have m_kind: "\<forall>e s'. Magazine_init s mname category = (Inl e, s') \<longrightarrow>
          s' = s \<and>
          e \<in> {Exception ''Name must be a string'',
               Exception ''Name must be between 2 and 16 characters'',
               Exception ''Category must be a string'',
               Exception ''Category must be longer than 0 characters''}"
    by (cases mname; cases category)
       (auto simp: Magazine_init_def Let_def split: if_splits)
  have m_type: "\<not> (\<exists>n. mname = PyStr n) \<longrightarrow>
          Magazine_init s mname category = (Inl (Exception ''Name must be a string''), s)"
    by (cases mname) (simp_all add: Magazine_init_def)
  have m_len: "\<forall>n. mname = PyStr n \<and> \<not> (2 \<le> length n \<and> length n \<le> 16) \<longrightarrow>
          Magazine_init s mname category
            = (Inl (Exception ''Name must be between 2 and 16 characters''), s)"
    by (auto simp: Magazine_init_def)
  have c_type: "\<forall>n. mname = PyStr n \<and> 2 \<le> length n \<and> length n \<le> 16
            \<and> \<not> (\<exists>c. category = PyStr c) \<longrightarrow>
          Magazine_init s mname category = (Inl (Exception ''Category must be a string''), s)"
    by (cases category) (simp_all add: Magazine_init_def)
  have c_len: "\<forall>n. mname = PyStr n \<and> 2 \<le> length n \<and> length n \<le> 16
            \<and> category = PyStr '''' \<longrightarrow>
          Magazine_init s mname category
            = (Inl (Exception ''Category must be longer than 0 characters''), s)"
    by (simp add: Magazine_init_def)
  have a_empty': "\<exists>e s'. Author_init s (PyStr '''') = (Inl e, s')"
    using a_empty by blast
  show ?thesis
    by (intro conjI a_iff a_empty' a_ok m_iff a_kind a_type a_empty m_kind m_type m_len
        c_type c_len)
qed

theorem constructors_raise_iff_witness:
  "Author_init init_state (PyInt 3) = (Inl (Exception ''Name must be a string''), init_state)
   \<and> Author_init init_state (PyStr '''')
       = (Inl (Exception ''Name must be longer than 0 characters''), init_state)
   \<and> Magazine_init init_state (PyStr ''M'') (PyStr ''Tech'')
       = (Inl (Exception ''Name must be between 2 and 16 characters''), init_state)
   \<and> Magazine_init init_state (PyStr ''Vogue'') (PyInt 3)
       = (Inl (Exception ''Category must be a string''), init_state)
   \<and> Magazine_init init_state (PyStr ''Vogue'') (PyStr '''')
       = (Inl (Exception ''Category must be longer than 0 characters''), init_state)"
  using constructors_raise_iff [of init_state "PyInt 3" "PyStr ''M''" "PyStr ''Tech''"]
    constructors_raise_iff [of init_state "PyInt 3" "PyStr ''Vogue''" "PyInt 3"]
    constructors_raise_iff [of init_state "PyInt 3" "PyStr ''Vogue''" "PyStr ''''"]
  by simp

text \<open>
  C2. Constructing an article raises exactly when the author argument is not an Author,
  or the magazine argument is not a Magazine, or the title is not a string, or the
  title's length is outside 5 to 50. What is raised is the validation error of the
  source, the builtin \<^verbatim>\<open>Exception\<close> with the message of the first guard that fails,
  never another kind of error. A failed construction leaves the store, and so
  \<^verbatim>\<open>Article.all\<close>, as it was. The title \<^verbatim>\<open>"Hi"\<close> fails, as does every title of four
  characters; \<^verbatim>\<open>"Hello"\<close> succeeds.
\<close>

theorem Article_init_raises_iff:
  "((\<exists>e s'. Article_init s author magazine title = (Inl e, s')) \<longleftrightarrow>
      \<not> (\<exists>a. author = AuthorRef a) \<or> \<not> (\<exists>m. magazine = MagazineRef m)
      \<or> \<not> (\<exists>t. title = PyStr t) \<or> \<not> (\<exists>t. title = PyStr t \<and> 5 \<le> length t \<and> length t \<le> 50))
   \<and> (\<forall>e s'. Article_init s author magazine title = (Inl e, s') \<longrightarrow>
          s' = s \<and> Article_all s' = Article_all s)
   \<and> (\<exists>e. Article_init s (AuthorRef a) (MagazineRef m) (PyStr ''Hi'') = (Inl e, s))
   \<and> (\<forall>t. length t = 4 \<longrightarrow>
          (\<exists>e. Article_init s (AuthorRef a) (MagazineRef m) (PyStr t) = (Inl e, s)))
   \<and> (\<exists>r s'. Article_init s (AuthorRef a) (MagazineRef m) (PyStr ''Hello'') = (Inr r, s'))
   \<and> (\<forall>e s'. Article_init s author magazine title = (Inl e, s') \<longrightarrow>
          e \<in> {Exception ''Author must be an instance of Author'',
               Exception ''Magazine must be an instance of Magazine'',
               Exception ''Title must be a string'',
               Exception ''Title must be between 5 and 50 characters''})
   \<and> (\<not> (\<exists>a. author = AuthorRef a) \<longrightarrow>
          Article_init s author magazine title
            = (Inl (Exception ''Author must be an instance of Author''), s))
   \<and> (\<not> (\<exists>m. magazine = MagazineRef m) \<longrightarrow>
          Article_init s (AuthorRef a) magazine title
            = (Inl (Exception ''Magazine must be an instance of Magazine''), s))
   \<and> (\<not> (\<exists>t. title = PyStr t) \<longrightarrow>
          Article_init s (AuthorRef a) (MagazineRef m) title
            = (Inl (Exception ''Title must be a string''), s))
   \<and> (\<forall>t. \<not> (5 \<le> length t \<and> length t \<le> 50) \<longrightarrow>
          Article_init s (AuthorRef a) (MagazineRef m) (PyStr t)
            = (Inl (Exception ''Title must be between 5 and 50 characters''), s))
   \<and> Article_init s (AuthorRef a) (MagazineRef m) (PyStr ''Hi'')
        = (Inl (Exception ''Title must be between 5 and 50 characters''), s)"
proof -
  have iff: "(\<exists>e s'. Article_init s author magazine title = (Inl e, s')) \<longleftrightarrow>
      \<not> (\<exists>a. author = AuthorRef a) \<or> \<not> (\<exists>m. magazine = MagazineRef m)
      \<or> \<not> (\<exists>t. title = PyStr t) \<or> \<not> (\<exists>t. title = PyStr t \<and> 5 \<le> length t \<and> length t \<le> 50)"
    by (cases author; cases magazine; cases title) (auto simp: Article_init_def Let_def)
  have same: "\<forall>e s'. Article_init s author magazine title = (Inl e, s') \<longrightarrow>
          s' = s \<and> Article_all s' = Article_all s"
    by (cases author; cases magazine; cases title)
       (auto simp: Article_init_def Let_def split: if_splits)
  have kind: "\<forall>e s'. Article_init s author magazine title = (Inl e, s') \<longrightarrow>
          e \<in> {Exception ''Author must be an instance of Author'',
               Exception ''Magazine must be an instance of Magazine'',
               Exception ''Title must be a string'',
               Exception ''Title must be between 5 and 50 characters''}"
    by (cases author; cases magazine; cases title)
       (auto simp: Article_init_def Let_def split: if_splits)
  have g1: "\<not> (\<exists>a. author = AuthorRef a) \<longrightarrow>
          Article_init s author magazine title
            = (Inl (Exception ''Author must be an instance of Author''), s)"
    by (cases author) (simp_all add: Article_init_def)
  have g2: "\<not> (\<exists>m. magazine = MagazineRef m) \<longrightarrow>
          Article_init s (AuthorRef a) magazine title
            = (Inl (Exception ''Magazine must be an instance of Magazine''), s)"
    by (cases magazine) (simp_all add: Article_init_def)
  have g3: "\<not> (\<exists>t. title = PyStr t) \<longrightarrow>
          Article_init s (AuthorRef a) (MagazineRef m) title
            = (Inl (Exception ''Title must be a string''), s)"
    by (cases title) (simp_all add: Article_init_def)
  have g4: "\<forall>t. \<not> (5 \<le> length t \<and> length t \<le> 50) \<longrightarrow>
          Article_init s (AuthorRef a) (MagazineRef m) (PyStr t)
            = (Inl (Exception ''Title must be between 5 and 50 characters''), s)"
    by (simp add: Article_init_def)
  have hi: "Article_init s (AuthorRef a) (MagazineRef m) (PyStr ''Hi'')
        = (Inl (Exception ''Title must be between 5 and 50 characters''), s)"
    by (simp add: Article_init_def)
  have hi': "\<exists>e. Article_init s (AuthorRef a) (MagazineRef m) (PyStr ''Hi'') = (Inl e, s)"
    using hi by blast
  have four: "\<forall>t. length t = 4 \<longrightarrow>
          (\<exists>e. Article_init s (AuthorRef a) (MagazineRef m) (PyStr t) = (Inl e, s))"
    using g4 by auto
  have hello: "\<exists>r s'. Article_init s (AuthorRef a) (MagazineRef m) (PyStr ''Hello'') = (Inr r, s')"
    by (simp add: Article_init_def Let_def)
  show ?thesis
    by (intro conjI iff same hi' four hello kind g1 g2 g3 g4 hi)
qed

theorem Article_init_raises_iff_witness:
  "Article_init example_state (PyStr ''Ann'') (MagazineRef 0) (PyStr ''Valid Title'')
     = (Inl (Exception ''Author must be an instance of Author''), example_state)
   \<and> Article_all example_state = [0, 1, 2, 3]
   \<and> Article_init example_state (AuthorRef 0) (PyInt 5) (PyStr ''Valid Title'')
       = (Inl (Exception ''Magazine must be an instance of Magazine''), example_state)
   \<and> Article_init example_state (AuthorRef 0) (MagazineRef 0) PyNone
       = (Inl (Exception ''Title must be a string''), example_state)
   \<and> Article_init example_state (AuthorRef 0) (MagazineRef 0) (PyStr ''Blog'')
       = (Inl (Exception ''Title must be between 5 and 50 characters''), example_state)"
proof -
  have reg: "Article_all example_state = [0, 1, 2, 3]"
    by (simp add: example_state_def)
  note w1 = Article_init_raises_iff
    [of example_state "PyStr ''Ann''" "MagazineRef 0" "PyStr ''Valid Title''" 0 0]
  note w2 = Article_init_raises_iff
    [of example_state "PyStr ''Ann''" "PyInt 5" "PyStr ''Valid Title''" 0 0]
  note w3 = Article_init_raises_iff
    [of example_state "PyStr ''Ann''" "MagazineRef 0" PyNone 0 0]
  have 1: "Article_init example_state (PyStr ''Ann'') (MagazineRef 0) (PyStr ''Valid Title'')
     = (Inl (Exception ''Author must be an instance of Author''), example_state)"
    using w1 by simp
  have 2: "Article_init example_state (AuthorRef 0) (PyInt 5) (PyStr ''Valid Title'')
       = (Inl (Exception ''Magazine must be an instance of Magazine''), example_state)"
    using w2 by simp
  have 3: "Article_init example_state (AuthorRef 0) (MagazineRef 0) PyNone
       = (Inl (Exception ''Title must be a string''), example_state)"
    using w3 by simp
  have "\<not> (5 \<le> length ''Blog'' \<and> length ''Blog'' \<le> 50)"
    by simp
  with w1 have 4: "Article_init example_state (AuthorRef 0) (MagazineRef 0) (PyStr ''Blog'')
       = (Inl (Exception ''Title must be between 5 and 50 characters''), example_state)"
    by blast
  from 1 reg 2 3 4 show ?thesis
    by blast
qed

section \<open>Registration of articles\<close>

text \<open>
  C1. For an Author \<open>a\<close>, a Magazine \<open>m\<close> and a title of 5 to 50 characters, constructing
  an Article succeeds and appends exactly one entry, the new article, to \<^verbatim>\<open>Article.all\<close>
  (an article that was not there before); afterwards the article is in
  \<^verbatim>\<open>author.articles()\<close> and in \<^verbatim>\<open>magazine.articles()\<close>.
\<close>

theorem Article_init_registers:
  assumes "5 \<le> length t" and "length t \<le> 50"
  shows "\<exists>r s'. Article_init s (AuthorRef a) (MagazineRef m) (PyStr t) = (Inr r, s')
           \<and> Article_all s' = Article_all s @ [r]
           \<and> (wf_state s \<longrightarrow> r \<notin> set (Article_all s))
           \<and> r \<in> set (Author_articles s' a)
           \<and> r \<in> set (Magazine_articles s' m)
           \<and> Article_title s' r = PyStr t"
  using assms
  by (auto simp: Article_init_def Let_def Author_articles_def Magazine_articles_def
      Article_author_def Article_magazine_def Article_title_def wf_state_def)

theorem Article_init_registers_witness:
  "5 \<le> length ''Fourth story'' \<and> length ''Fourth story'' \<le> 50 \<and> wf_state example_state
   \<and> (\<exists>s'. Article_init example_state (AuthorRef 1) (MagazineRef 0) (PyStr ''Fourth story'')
              = (Inr 4, s')
           \<and> Article_all s' = [0, 1, 2, 3, 4]
           \<and> 4 \<in> set (Author_articles s' 1) \<and> 4 \<in> set (Magazine_articles s' 0))"
proof -
  have len: "5 \<le> length ''Fourth story''" "length ''Fourth story'' \<le> 50"
    by simp_all
  have wf: "wf_state example_state"
    by (simp add: wf_state_def example_state_def)
  have r: "fst (Article_init example_state (AuthorRef 1) (MagazineRef 0) (PyStr ''Fourth story''))
             = Inr 4"
    by (simp add: Article_init_def example_state_def)
  from Article_init_registers [OF len, of example_state 1 0] r wf
  show ?thesis
    by (auto simp: example_state_def)
qed

section \<open>Setters\<close>

text \<open>
  C5. Assigning any value \<open>v\<close> to \<^verbatim>\<open>article.title\<close> or to \<^verbatim>\<open>author.name\<close> raises
  nothing and leaves the whole store as it was, so the title and the name read afterwards
  are the ones read before, and for an object just constructed the ones it was
  constructed with.
\<close>

theorem title_and_name_setters_ignore:
  "Article_title_set s r v = (Inr (), s)
   \<and> Article_title (snd (Article_title_set s r v)) r = Article_title s r
   \<and> Author_name_set s a v = (Inr (), s)
   \<and> Author_name (snd (Author_name_set s a v)) a = Author_name s a
   \<and> (Article_init s0 au mg (PyStr t) = (Inr r, s) \<longrightarrow>
        Article_title (snd (Article_title_set s r v)) r = PyStr t)
   \<and> (Author_init s1 (PyStr n) = (Inr a, s) \<longrightarrow>
        Author_name (snd (Author_name_set s a v)) a = PyStr n)"
  by (auto simp: Article_title_set_def Author_name_set_def Article_init_def Author_init_def
      Article_title_def Author_name_def Let_def split: pyval.splits if_splits)

theorem title_and_name_setters_ignore_witness:
  "Article_init example_state (AuthorRef 1) (MagazineRef 1) (PyStr ''Robots'')
     = (Inr 4, snd (Article_init example_state (AuthorRef 1) (MagazineRef 1) (PyStr ''Robots'')))
   \<and> Article_title
        (snd (Article_title_set
               (snd (Article_init example_state (AuthorRef 1) (MagazineRef 1) (PyStr ''Robots'')))
               4 (PyStr ''Another valid title''))) 4 = PyStr ''Robots''
   \<and> Author_init example_state (PyStr ''A'')
       = (Inr 2, snd (Author_init example_state (PyStr ''A'')))
   \<and> Author_name
        (snd (Author_name_set (snd (Author_init example_state (PyStr ''A''))) 2 (PyStr ''B''))) 2
       = PyStr ''A''"
proof -
  have 1: "Article_init example_state (AuthorRef 1) (MagazineRef 1) (PyStr ''Robots'')
     = (Inr 4, snd (Article_init example_state (AuthorRef 1) (MagazineRef 1) (PyStr ''Robots'')))"
    by (simp add: Article_init_def example_state_def)
  have 2: "Author_init example_state (PyStr ''A'')
       = (Inr 2, snd (Author_init example_state (PyStr ''A'')))"
    by (simp add: Author_init_def example_state_def)
  from 1 2 title_and_name_setters_ignore
    [of "snd (Article_init example_state (AuthorRef 1) (MagazineRef 1) (PyStr ''Robots''))"
        4 "PyStr ''Another valid title''" 2 example_state "AuthorRef 1" "MagazineRef 1"
        "''Robots''" example_state "''A''"]
    title_and_name_setters_ignore
    [of "snd (Author_init example_state (PyStr ''A''))"
        4 "PyStr ''B''" 2 example_state "AuthorRef 1" "MagazineRef 1"
        "''Robots''" example_state "''A''"]
  show ?thesis
    by blast
qed

lemma magazine_ok_name:
  "magazine_ok mg \<Longrightarrow> 2 \<le> length n \<Longrightarrow> length n \<le> 16 \<Longrightarrow>
   magazine_ok (mg\<lparr>magazine_name := PyStr n\<rparr>)"
  by (simp add: magazine_ok_def)

lemma magazine_ok_category:
  "magazine_ok mg \<Longrightarrow> 0 < length c \<Longrightarrow> magazine_ok (mg\<lparr>magazine_category := PyStr c\<rparr>)"
  by (simp add: magazine_ok_def)

lemma list_all_nth: "list_all P xs \<Longrightarrow> i < length xs \<Longrightarrow> P (xs ! i)"
  by (simp add: list_all_length)

lemma list_all_update:
  "list_all P xs \<Longrightarrow> (i < length xs \<longrightarrow> P x) \<Longrightarrow> list_all P (xs[i := x])"
  by (cases "i < length xs") (auto simp: list_all_length nth_list_update)

lemma magazines_ok_init_state: "magazines_ok init_state"
  by (simp add: magazines_ok_def init_state_def)

lemma magazines_ok_Magazine_init:
  "magazines_ok s \<Longrightarrow> magazines_ok (snd (Magazine_init s name category))"
  by (cases name; cases category)
     (simp_all add: Magazine_init_def Let_def magazines_ok_def magazine_ok_def)

lemma magazines_ok_name_set: "magazines_ok s \<Longrightarrow> magazines_ok (snd (Magazine_name_set s m v))"
  by (cases v) (simp_all add: Magazine_name_set_def magazines_ok_def
      list_all_update magazine_ok_name list_all_nth)

lemma magazines_ok_category_set:
  "magazines_ok s \<Longrightarrow> magazines_ok (snd (Magazine_category_set s m v))"
  by (cases v) (simp_all add: Magazine_category_set_def magazines_ok_def
      list_all_update magazine_ok_category list_all_nth)

lemma magazines_unchanged:
  "magazines (snd (Author_init s name)) = magazines s"
  "magazines (snd (Article_init s author magazine title)) = magazines s"
  "magazines (snd (Article_title_set s self v)) = magazines s"
  "magazines (snd (Article_author_set s self v)) = magazines s"
  "magazines (snd (Article_magazine_set s self v)) = magazines s"
  "magazines (snd (Author_name_set s self v)) = magazines s"
  by (simp_all add: Author_init_def Article_init_def Article_title_set_def
      Article_author_set_def Article_magazine_set_def Author_name_set_def Let_def
      split: pyval.splits)

lemma reachable_magazines_ok: "reachable s \<Longrightarrow> magazines_ok s"
proof (induction rule: reachable.induct)
  case start
  show ?case by (rule magazines_ok_init_state)
next
  case (new_magazine s name category)
  then show ?case by (simp add: magazines_ok_Magazine_init)
next
  case (set_name s self v)
  then show ?case by (simp add: magazines_ok_name_set)
next
  case (set_category s self v)
  then show ?case by (simp add: magazines_ok_category_set)
qed (simp_all add: magazines_ok_def magazines_unchanged)

lemma reachable_wf_state: "reachable s \<Longrightarrow> wf_state s"
proof (induction rule: reachable.induct)
  case start
  show ?case by (simp add: wf_state_def init_state_def)
next
  case (new_author s name)
  then show ?case
    by (cases name) (auto simp: wf_state_def Author_init_def)
next
  case (new_magazine s name category)
  then show ?case
    by (cases name; cases category)
       (auto simp: wf_state_def Magazine_init_def Let_def less_Suc_eq)
next
  case (new_article s author magazine title)
  then show ?case
    by (cases author; cases magazine; cases title)
       (auto simp: wf_state_def Article_init_def Let_def less_Suc_eq)
next
  case (set_title s self v)
  then show ?case by (simp add: Article_title_set_def)
next
  case (set_author s self v)
  then show ?case
    by (cases v) (auto simp: wf_state_def Article_author_set_def)
next
  case (set_magazine s self v)
  then show ?case
    by (cases v) (auto simp: wf_state_def Article_magazine_set_def)
next
  case (set_author_name s self v)
  then show ?case by (simp add: Author_name_set_def)
next
  case (set_name s self v)
  then show ?case
    by (cases v) (auto simp: wf_state_def Magazine_name_set_def)
next
  case (set_category s self v)
  then show ?case
    by (cases v) (auto simp: wf_state_def Magazine_category_set_def)
qed

text \<open>
  C6. In every store a client can reach, each magazine has a name that is a string of 2
  to 16 characters and a category that is a non-empty string: the constructor
  establishes this and every assignment keeps it for every magazine of the store. Assigning to \<open>name\<close> (to \<open>category\<close>) never raises; a value that is not a
  string of 2 to 16 characters (not a non-empty string) leaves the store as it was; a
  valid value replaces the name (the category) and nothing else of the magazine.
\<close>

theorem Magazine_invariant:
  "(reachable s \<and> m < length (magazines s) \<longrightarrow> magazine_ok (magazines s ! m))
   \<and> (Magazine_init s name category = (Inr m0, s0) \<longrightarrow>
       magazine_ok (magazines s0 ! m0) \<and> (magazines_ok s \<longrightarrow> magazines_ok s0))
   \<and> (\<exists>s'. Magazine_name_set s m v = (Inr (), s'))
   \<and> (\<not> (\<exists>n. v = PyStr n \<and> 2 \<le> length n \<and> length n \<le> 16) \<longrightarrow>
         Magazine_name_set s m v = (Inr (), s))
   \<and> ((\<exists>n. v = PyStr n \<and> 2 \<le> length n \<and> length n \<le> 16) \<and> m < length (magazines s) \<longrightarrow>
         Magazine_name (snd (Magazine_name_set s m v)) m = v
         \<and> Magazine_category (snd (Magazine_name_set s m v)) m = Magazine_category s m)
   \<and> (magazines_ok s \<longrightarrow> magazines_ok (snd (Magazine_name_set s m v)))
   \<and> (\<exists>s'. Magazine_category_set s m v = (Inr (), s'))
   \<and> (\<not> (\<exists>c. v = PyStr c \<and> 0 < length c) \<longrightarrow> Magazine_category_set s m v = (Inr (), s))
   \<and> ((\<exists>c. v = PyStr c \<and> 0 < length c) \<and> m < length (magazines s) \<longrightarrow>
         Magazine_category (snd (Magazine_category_set s m v)) m = v
         \<and> Magazine_name (snd (Magazine_category_set s m v)) m = Magazine_name s m)
   \<and> (magazines_ok s \<longrightarrow> magazines_ok (snd (Magazine_category_set s m v)))"
proof -
  have init: "Magazine_init s name category = (Inr m0, s0) \<longrightarrow>
       magazine_ok (magazines s0 ! m0) \<and> (magazines_ok s \<longrightarrow> magazines_ok s0)"
    by (auto simp: Magazine_init_def Let_def magazine_ok_def magazines_ok_def
        split: pyval.splits if_splits)
  have reach: "reachable s \<and> m < length (magazines s) \<longrightarrow> magazine_ok (magazines s ! m)"
    using reachable_magazines_ok [of s] by (auto simp: magazines_ok_def list_all_length)
  have name_ok: "magazines_ok s \<longrightarrow> magazines_ok (snd (Magazine_name_set s m v))"
    by (simp add: magazines_ok_name_set)
  have cat_ok: "magazines_ok s \<longrightarrow> magazines_ok (snd (Magazine_category_set s m v))"
    by (simp add: magazines_ok_category_set)
  have name_rest: "(\<exists>s'. Magazine_name_set s m v = (Inr (), s'))
   \<and> (\<not> (\<exists>n. v = PyStr n \<and> 2 \<le> length n \<and> length n \<le> 16) \<longrightarrow>
         Magazine_name_set s m v = (Inr (), s))
   \<and> ((\<exists>n. v = PyStr n \<and> 2 \<le> length n \<and> length n \<le> 16) \<and> m < length (magazines s) \<longrightarrow>
         Magazine_name (snd (Magazine_name_set s m v)) m = v
         \<and> Magazine_category (snd (Magazine_name_set s m v)) m = Magazine_category s m)"
    by (cases v) (auto simp: Magazine_name_set_def Magazine_name_def Magazine_category_def)
  have cat_rest: "(\<exists>s'. Magazine_category_set s m v = (Inr (), s'))
   \<and> (\<not> (\<exists>c. v = PyStr c \<and> 0 < length c) \<longrightarrow> Magazine_category_set s m v = (Inr (), s))
   \<and> ((\<exists>c. v = PyStr c \<and> 0 < length c) \<and> m < length (magazines s) \<longrightarrow>
         Magazine_category (snd (Magazine_category_set s m v)) m = v
         \<and> Magazine_name (snd (Magazine_category_set s m v)) m = Magazine_name s m)"
    by (cases v) (auto simp: Magazine_category_set_def Magazine_name_def Magazine_category_def)
  from reach init name_ok cat_ok name_rest cat_rest show ?thesis
    by blast
qed

theorem Magazine_invariant_witness:
  "Magazine_init init_state (PyStr ''Vogue'') (PyStr ''Fashion'')
     = (Inr 0, snd (Magazine_init init_state (PyStr ''Vogue'') (PyStr ''Fashion'')))
   \<and> magazine_ok (magazines (snd (Magazine_init init_state (PyStr ''Vogue'') (PyStr ''Fashion''))) ! 0)
   \<and> reachable (snd (Magazine_init init_state (PyStr ''Vogue'') (PyStr ''Fashion'')))
   \<and> magazines_ok example_state
   \<and> Magazine_name_set example_state 1 (PyInt 7) = (Inr (), example_state)
   \<and> Magazine_category_set example_state 1 (PyStr '''') = (Inr (), example_state)
   \<and> Magazine_name (snd (Magazine_name_set example_state 1 (PyStr ''Byte''))) 1 = PyStr ''Byte''
   \<and> Magazine_category (snd (Magazine_category_set example_state 1 (PyStr ''Code''))) 1
       = PyStr ''Code''
   \<and> magazines_ok (snd (Magazine_name_set example_state 1 (PyStr ''Byte'')))
   \<and> magazines_ok (snd (Magazine_category_set example_state 1 (PyStr ''Code'')))"
proof -
  have 1: "Magazine_init init_state (PyStr ''Vogue'') (PyStr ''Fashion'')
     = (Inr 0, snd (Magazine_init init_state (PyStr ''Vogue'') (PyStr ''Fashion'')))"
    by (simp add: Magazine_init_def init_state_def)
  have 2: "magazines_ok example_state"
    by (simp add: magazines_ok_def magazine_ok_def example_state_def)
  have 3: "1 < length (magazines example_state)"
    by (simp add: example_state_def)
  have 4: "reachable (snd (Magazine_init init_state (PyStr ''Vogue'') (PyStr ''Fashion'')))"
    by (intro reachable.intros)
  have 5: "0 < length (magazines (snd (Magazine_init init_state (PyStr ''Vogue'') (PyStr ''Fashion''))))"
    by (simp add: Magazine_init_def init_state_def)
  note a = Magazine_invariant [of init_state _ "PyStr ''Vogue''" "PyStr ''Fashion''" 0
      "snd (Magazine_init init_state (PyStr ''Vogue'') (PyStr ''Fashion''))"]
  note b = Magazine_invariant [of example_state 1 _ _ _ _ "PyInt 7"]
  note c = Magazine_invariant [of example_state 1 _ _ _ _ "PyStr ''''"]
  note d = Magazine_invariant [of example_state 1 _ _ _ _ "PyStr ''Byte''"]
  note e = Magazine_invariant [of example_state 1 _ _ _ _ "PyStr ''Code''"]
  note f = Magazine_invariant
      [of "snd (Magazine_init init_state (PyStr ''Vogue'') (PyStr ''Fashion''))" 0]
  show ?thesis
    using 1 2 3 4 5 a b c d e f by simp
qed

text \<open>
  C7, as the code has it. \<^verbatim>\<open>Magazine("M", "Tech")\<close> raises, the name having one
  character where at least two are required. For a magazine constructed with a name \<open>n\<close>
  of 2 to 16 characters and the category \<^verbatim>\<open>"Tech"\<close>, assigning the name
  \<^verbatim>\<open>"ThisIsWayTooLongAName"\<close> leaves the name equal to \<open>n\<close>, and assigning
  \<^verbatim>\<open>"OK"\<close> after that changes the name to \<^verbatim>\<open>"OK"\<close>.
\<close>

theorem Magazine_name_scenario:
  "fst (Magazine_init s (PyStr ''M'') (PyStr ''Tech''))
     = Inl (Exception ''Name must be between 2 and 16 characters'')
   \<and> (2 \<le> length n \<and> length n \<le> 16 \<longrightarrow>
        (\<exists>m s1 s2 s3.
           Magazine_init s (PyStr n) (PyStr ''Tech'') = (Inr m, s1)
           \<and> Magazine_name s1 m = PyStr n
           \<and> Magazine_name_set s1 m (PyStr ''ThisIsWayTooLongAName'') = (Inr (), s2)
           \<and> Magazine_name s2 m = PyStr n
           \<and> Magazine_name_set s2 m (PyStr ''OK'') = (Inr (), s3)
           \<and> Magazine_name s3 m = PyStr ''OK''))"
  by (auto simp: Magazine_init_def Magazine_name_set_def Magazine_name_def Let_def)

theorem Magazine_name_scenario_witness:
  "2 \<le> length ''Mg'' \<and> length ''Mg'' \<le> 16
   \<and> (\<exists>s1 s2 s3.
         Magazine_init init_state (PyStr ''Mg'') (PyStr ''Tech'') = (Inr 0, s1)
         \<and> Magazine_name_set s1 0 (PyStr ''ThisIsWayTooLongAName'') = (Inr (), s2)
         \<and> Magazine_name s2 0 = PyStr ''Mg''
         \<and> Magazine_name_set s2 0 (PyStr ''OK'') = (Inr (), s3)
         \<and> Magazine_name s3 0 = PyStr ''OK'')"
proof -
  have r: "fst (Magazine_init init_state (PyStr ''Mg'') (PyStr ''Tech'')) = Inr 0"
    by (simp add: Magazine_init_def init_state_def)
  from Magazine_name_scenario [of init_state "''Mg''"] r show ?thesis
    by auto
qed

text \<open>The scenario of C7 as it is written stops at its first step: the constructor
  raises on the one-character name.\<close>

theorem Magazine_M_Tech_counterexample:
  "Magazine_init init_state (PyStr ''M'') (PyStr ''Tech'')
     = (Inl (Exception ''Name must be between 2 and 16 characters''), init_state)"
  by (simp add: Magazine_init_def)

section \<open>Properties of the dictionary, the counting loop and max\<close>

lemma dict_lookup_set:
  "dict_lookup (dict_set d k v) k' = (if k' = k then Some v else dict_lookup d k')"
  by (induction d) auto

lemma dict_lookup_None_iff: "dict_lookup d k = None \<longleftrightarrow> k \<notin> fst ` set d"
  by (induction d) (force split: if_splits)+

lemma dict_keys_set:
  "map fst (dict_set d k v) =
     (if dict_lookup d k = None then map fst d @ [k] else map fst d)"
  by (induction d) (auto split: if_splits)

lemma dict_lookup_distinct:
  "distinct (map fst d) \<Longrightarrow> (k, v) \<in> set d \<Longrightarrow> dict_lookup d k = Some v"
  by (induction d) (auto simp: rev_image_eqI)

lemma count_loop_get:
  "dict_get (count_loop f d xs) k 0 = dict_get d k 0 + int (count_list (map f xs) k)"
  by (induction xs arbitrary: d) (auto simp: Let_def dict_get_def dict_lookup_set)

lemma count_loop_keys: "fst ` set (count_loop f d xs) = fst ` set d \<union> f ` set xs"
proof (induction xs arbitrary: d)
  case Nil
  then show ?case by simp
next
  case (Cons x xs)
  have "fst ` set (dict_set d k v) = insert k (fst ` set d)" for k v
    using arg_cong [OF dict_keys_set [of d k v], of set]
    by (auto simp: dict_lookup_None_iff split: if_splits)
  with Cons show ?case
    by (auto simp: Let_def)
qed

lemma count_loop_distinct:
  "distinct (map fst d) \<Longrightarrow> distinct (map fst (count_loop f d xs))"
proof (induction xs arbitrary: d)
  case Nil
  then show ?case by simp
next
  case (Cons x xs)
  have "distinct (map fst (dict_set d k v))" for k v
    using Cons.prems by (simp add: dict_keys_set dict_lookup_None_iff)
  with Cons.IH show ?case
    by (simp add: Let_def)
qed
lemma find_app: "List.find P (xs @ ys) = (case List.find P xs of Some y \<Rightarrow> Some y | None \<Rightarrow> List.find P ys)"
  by (induction xs) auto

lemma count_loop_find:
  "List.find P (map fst (count_loop f d xs)) =
     (case List.find P (map fst d) of Some y \<Rightarrow> Some y | None \<Rightarrow> List.find P (map f xs))"
proof (induction xs arbitrary: d)
  case Nil
  then show ?case by (simp split: option.splits)
next
  case (Cons x xs)
  let ?d = "dict_set d (f x) (dict_get d (f x) 0 + 1)"
  have keys: "List.find P (map fst ?d) =
      (case List.find P (map fst d) of Some y \<Rightarrow> Some y
       | None \<Rightarrow> if P (f x) then Some (f x) else None)"
  proof (cases "dict_lookup d (f x)")
    case None
    then show ?thesis
      by (simp add: dict_keys_set find_app split: option.splits)
  next
    case (Some c)
    then have "f x \<in> set (map fst d)"
      using dict_lookup_None_iff [of d "f x"] by simp
    then have "List.find P (map fst d) = None \<Longrightarrow> \<not> P (f x)"
      by (auto simp: find_None_iff)
    with Some show ?thesis
      by (auto simp: dict_keys_set split: option.splits)
  qed
  show ?case
    by (simp add: Let_def Cons.IH keys split: option.splits)
qed

lemma find_split:
  "P y \<Longrightarrow> \<forall>x \<in> set p. \<not> P x \<Longrightarrow> List.find P (p @ y # q) = Some y"
  by (induction p) auto

lemma max_loop_result:
  assumes "\<forall>x \<in> set (b # rest). key x = Some (g x)"
  shows "\<exists>y. max_loop key b (Some (g b)) rest = Inr y \<and>
           ((y = b \<and> (\<forall>x \<in> set rest. g x \<le> g b)) \<or>
            (\<exists>p q. rest = p @ y # q \<and> (\<forall>x \<in> set p. g x < g y) \<and> g b < g y
                   \<and> (\<forall>x \<in> set q. g x \<le> g y)))"
  using assms
proof (induction rest arbitrary: b)
  case Nil
  then show ?case by simp
next
  case (Cons x xs)
  have kx: "key x = Some (g x)"
    using Cons.prems by simp
  show ?case
  proof (cases "g x > g b")
    case True
    have "\<forall>z \<in> set (x # xs). key z = Some (g z)"
      using Cons.prems by simp
    from Cons.IH [OF this] obtain y where
      y: "max_loop key x (Some (g x)) xs = Inr y" and
      d: "(y = x \<and> (\<forall>z \<in> set xs. g z \<le> g x)) \<or>
          (\<exists>p q. xs = p @ y # q \<and> (\<forall>z \<in> set p. g z < g y) \<and> g x < g y
                 \<and> (\<forall>z \<in> set q. g z \<le> g y))"
      by blast
    from d have "\<exists>p q. x # xs = p @ y # q \<and> (\<forall>z \<in> set p. g z < g y) \<and> g b < g y
                 \<and> (\<forall>z \<in> set q. g z \<le> g y)"
    proof
      assume "y = x \<and> (\<forall>z \<in> set xs. g z \<le> g x)"
      with True have "x # xs = [] @ y # xs \<and> (\<forall>z \<in> set []. g z < g y) \<and> g b < g y
                 \<and> (\<forall>z \<in> set xs. g z \<le> g y)"
        by simp
      then show ?thesis by blast
    next
      assume "\<exists>p q. xs = p @ y # q \<and> (\<forall>z \<in> set p. g z < g y) \<and> g x < g y
                 \<and> (\<forall>z \<in> set q. g z \<le> g y)"
      then obtain p q where "xs = p @ y # q" "\<forall>z \<in> set p. g z < g y" "g x < g y"
         "\<forall>z \<in> set q. g z \<le> g y"
        by blast
      with True have "x # xs = (x # p) @ y # q \<and> (\<forall>z \<in> set (x # p). g z < g y) \<and> g b < g y
                 \<and> (\<forall>z \<in> set q. g z \<le> g y)"
        by simp
      then show ?thesis by blast
    qed
    with y kx True show ?thesis
      by simp
  next
    case False
    have "\<forall>z \<in> set (b # xs). key z = Some (g z)"
      using Cons.prems by simp
    from Cons.IH [OF this] obtain y where
      y: "max_loop key b (Some (g b)) xs = Inr y" and
      d: "(y = b \<and> (\<forall>z \<in> set xs. g z \<le> g b)) \<or>
          (\<exists>p q. xs = p @ y # q \<and> (\<forall>z \<in> set p. g z < g y) \<and> g b < g y
                 \<and> (\<forall>z \<in> set q. g z \<le> g y))"
      by blast
    from d have "(y = b \<and> (\<forall>z \<in> set (x # xs). g z \<le> g b)) \<or>
          (\<exists>p q. x # xs = p @ y # q \<and> (\<forall>z \<in> set p. g z < g y) \<and> g b < g y
                 \<and> (\<forall>z \<in> set q. g z \<le> g y))"
    proof
      assume "y = b \<and> (\<forall>z \<in> set xs. g z \<le> g b)"
      with False show ?thesis by simp
    next
      assume "\<exists>p q. xs = p @ y # q \<and> (\<forall>z \<in> set p. g z < g y) \<and> g b < g y
                 \<and> (\<forall>z \<in> set q. g z \<le> g y)"
      then obtain p q where "xs = p @ y # q" "\<forall>z \<in> set p. g z < g y" "g b < g y"
         "\<forall>z \<in> set q. g z \<le> g y"
        by blast
      with False have "x # xs = (x # p) @ y # q \<and> (\<forall>z \<in> set (x # p). g z < g y) \<and> g b < g y
                 \<and> (\<forall>z \<in> set q. g z \<le> g y)"
        by simp
      then show ?thesis by blast
    qed
    with y kx False show ?thesis
      by simp
  qed
qed

lemma py_max_first_max:
  assumes "xs \<noteq> []" and "\<forall>x \<in> set xs. key x = Some (g x)"
  shows "\<exists>y. py_max xs key = Inr y \<and>
              List.find (\<lambda>m. \<forall>x \<in> set xs. g x \<le> g m) xs = Some y"
proof -
  from assms(1) obtain b rest where xs: "xs = b # rest"
    by (cases xs) auto
  with assms(2) have "\<forall>x \<in> set (b # rest). key x = Some (g x)"
    by simp
  from max_loop_result [OF this] obtain y where
    y: "max_loop key b (Some (g b)) rest = Inr y" and
    d: "(y = b \<and> (\<forall>x \<in> set rest. g x \<le> g b)) \<or>
        (\<exists>p q. rest = p @ y # q \<and> (\<forall>x \<in> set p. g x < g y) \<and> g b < g y
               \<and> (\<forall>x \<in> set q. g x \<le> g y))"
    by blast
  let ?P = "\<lambda>m. \<forall>x \<in> set xs. g x \<le> g m"
  have res: "py_max xs key = Inr y"
    using xs y assms(2) by (simp add: py_max_def)
  from d have "List.find ?P xs = Some y"
  proof
    assume "y = b \<and> (\<forall>x \<in> set rest. g x \<le> g b)"
    then show ?thesis
      using xs by simp
  next
    assume "\<exists>p q. rest = p @ y # q \<and> (\<forall>x \<in> set p. g x < g y) \<and> g b < g y
               \<and> (\<forall>x \<in> set q. g x \<le> g y)"
    then obtain p q where pq: "rest = p @ y # q" "\<forall>x \<in> set p. g x < g y" "g b < g y"
        "\<forall>x \<in> set q. g x \<le> g y"
      by blast
    have split: "xs = (b # p) @ y # q"
      using xs pq(1) by simp
    have Py: "?P y"
      using pq split by (auto simp: less_imp_le)
    have "\<forall>x \<in> set (b # p). \<not> ?P x"
    proof
      fix x assume "x \<in> set (b # p)"
      then have "g x < g y" using pq by auto
      moreover have "y \<in> set xs" using split by simp
      ultimately show "\<not> ?P x" by (auto simp: not_le)
    qed
    from find_split [of ?P y "b # p" q, OF Py this] show ?thesis
      using split by simp
  qed
  with res show ?thesis by blast
qed
lemma dict_lookup_SomeD: "dict_lookup d k = Some v \<Longrightarrow> (k, v) \<in> set d"
  by (induction d) (auto split: if_splits)

lemma count_loop_lookup:
  "dict_lookup (count_loop f [] xs) k =
     (if k \<in> f ` set xs then Some (int (count_list (map f xs) k)) else None)"
proof (cases "k \<in> f ` set xs")
  case True
  then have "dict_lookup (count_loop f [] xs) k \<noteq> None"
    by (simp add: dict_lookup_None_iff count_loop_keys)
  then obtain c where c: "dict_lookup (count_loop f [] xs) k = Some c"
    by blast
  with count_loop_get [of f "[]" xs k] have "c = int (count_list (map f xs) k)"
    by (simp add: dict_get_def)
  with c True show ?thesis by simp
next
  case False
  then show ?thesis
    by (simp add: dict_lookup_None_iff count_loop_keys)
qed

lemma count_list_map_filter:
  "count_list (map f xs) k = length (filter (\<lambda>x. f x = k) xs)"
  by (induction xs) auto

lemma length_Magazine_articles:
  "length (Magazine_articles s m) = count_list (registry_magazines s) m"
  by (simp add: Magazine_articles_def registry_magazines_def count_list_map_filter)

lemma top_publisher_find: "Magazine_top_publisher s = Inr (first_top_magazine s)"
proof (cases "Article_all s = []")
  case True
  then show ?thesis
    by (simp add: Magazine_top_publisher_def first_top_magazine_def registry_magazines_def)
next
  case False
  let ?f = "Article_magazine s"
  let ?ms = "registry_magazines s"
  let ?d = "count_loop ?f [] (Article_all s)"
  let ?g = "\<lambda>m. int (count_list ?ms m)"
  have keys: "set (map fst ?d) = set ?ms"
    using count_loop_keys [of ?f "[]" "Article_all s"] by (simp add: registry_magazines_def)
  with False have ne: "map fst ?d \<noteq> []"
    by (auto simp: registry_magazines_def)
  have vals: "\<forall>x \<in> set (map fst ?d). dict_lookup ?d x = Some (?g x)"
    using keys by (simp add: count_loop_lookup registry_magazines_def)
  from py_max_first_max [OF ne vals] obtain y where
    y: "py_max (map fst ?d) (dict_lookup ?d) = Inr y" and
    f: "List.find (\<lambda>m. \<forall>x \<in> set (map fst ?d). ?g x \<le> ?g m) (map fst ?d) = Some y"
    by blast
  let ?P = "\<lambda>m. \<forall>x \<in> set ?ms. ?g x \<le> ?g m"
  from f have "List.find ?P (map fst ?d) = Some y"
    unfolding keys .
  then have "List.find ?P ?ms = Some y"
    using count_loop_find [of ?P ?f "[]" "Article_all s"] by (simp add: registry_magazines_def)
  then have "first_top_magazine s = Some y"
    by (simp add: first_top_magazine_def length_Magazine_articles)
  with y False show ?thesis
    by (simp add: Magazine_top_publisher_def)
qed

lemma first_top_magazine_SomeD:
  assumes "first_top_magazine s = Some m"
  shows "\<exists>pre post. registry_magazines s = pre @ m # post
           \<and> (\<forall>x \<in> set pre. length (Magazine_articles s x) < length (Magazine_articles s m))
           \<and> (\<forall>m'. length (Magazine_articles s m') \<le> length (Magazine_articles s m))"
proof -
  let ?ms = "registry_magazines s"
  let ?c = "\<lambda>m. length (Magazine_articles s m)"
  let ?P = "\<lambda>m. \<forall>m' \<in> set ?ms. ?c m' \<le> ?c m"
  from assms have "List.find ?P ?ms = Some m"
    by (simp add: first_top_magazine_def)
  then obtain i where i: "i < length ?ms" "?P (?ms ! i)" "m = ?ms ! i" "\<forall>j<i. \<not> ?P (?ms ! j)"
    unfolding find_Some_iff by blast
  have split: "?ms = take i ?ms @ m # drop (Suc i) ?ms"
    using i(1,3) by (simp add: id_take_nth_drop)
  have max: "?c m' \<le> ?c m" for m'
  proof (cases "m' \<in> set ?ms")
    case True
    with i(2,3) show ?thesis by simp
  next
    case False
    then have "?c m' = 0"
      by (simp add: length_Magazine_articles)
    then show ?thesis by simp
  qed
  have pre: "?c x < ?c m" if "x \<in> set (take i ?ms)" for x
  proof -
    from that obtain j where j: "j < i" "x = ?ms ! j"
      using i(1) by (auto simp: in_set_conv_nth)
    with i(4) have "\<not> ?P x" by simp
    then obtain m' where "m' \<in> set ?ms" "\<not> ?c m' \<le> ?c x"
      by blast
    with max [of m'] show ?thesis by simp
  qed
  from split pre max show ?thesis
    by blast
qed

lemma first_top_magazine_None_iff: "first_top_magazine s = None \<longleftrightarrow> Article_all s = []"
proof
  assume "Article_all s = []"
  then show "first_top_magazine s = None"
    by (simp add: first_top_magazine_def registry_magazines_def)
next
  assume n: "first_top_magazine s = None"
  show "Article_all s = []"
  proof (rule ccontr)
    assume ne: "Article_all s \<noteq> []"
    let ?f = "Article_magazine s"
    let ?d = "count_loop ?f [] (Article_all s)"
    have "set (map fst ?d) = set (registry_magazines s)"
      using count_loop_keys [of ?f "[]" "Article_all s"] by (simp add: registry_magazines_def)
    with ne have ne': "map fst ?d \<noteq> []"
      by (auto simp: registry_magazines_def)
    have "\<forall>x \<in> set (map fst ?d). dict_lookup ?d x = Some (int (count_list (map ?f (Article_all s)) x))"
      using count_loop_keys [of ?f "[]" "Article_all s"] by (simp add: count_loop_lookup)
    from py_max_first_max [OF ne' this] obtain y where
      "py_max (map fst ?d) (dict_lookup ?d) = Inr y" by blast
    with ne have "Magazine_top_publisher s = Inr (Some y)"
      by (simp add: Magazine_top_publisher_def)
    with n show False
      by (simp add: top_publisher_find)
  qed
qed
section \<open>The magazine with the most articles\<close>

text \<open>
  C4. \<^verbatim>\<open>Magazine.top_publisher()\<close> never raises; it returns \<^verbatim>\<open>None\<close> exactly when
  \<^verbatim>\<open>Article.all\<close> is empty, and otherwise a magazine of some article of the registry
  that has at least as many articles in \<^verbatim>\<open>Article.all\<close> as any magazine. When magazine
  \<open>A\<close> has 3 articles, magazine \<open>B\<close> has 1 and there are no others, it returns \<open>A\<close>.
\<close>

theorem top_publisher_maximal:
  "(Magazine_top_publisher s = Inr None \<longleftrightarrow> Article_all s = [])
   \<and> (\<exists>res. Magazine_top_publisher s = Inr res)
   \<and> (\<forall>m. Magazine_top_publisher s = Inr (Some m) \<longrightarrow>
          m \<in> set (registry_magazines s)
          \<and> (\<forall>m'. length (Magazine_articles s m') \<le> length (Magazine_articles s m)))
   \<and> (length (Magazine_articles s A) = 3 \<and> length (Magazine_articles s B) = 1
        \<and> (\<forall>m'. m' \<noteq> A \<and> m' \<noteq> B \<longrightarrow> Magazine_articles s m' = [])
       \<longrightarrow> Magazine_top_publisher s = Inr (Some A))"
proof -
  have none: "Magazine_top_publisher s = Inr None \<longleftrightarrow> Article_all s = []"
    by (simp add: top_publisher_find first_top_magazine_None_iff)
  have ret: "\<exists>res. Magazine_top_publisher s = Inr res"
    by (simp add: top_publisher_find)
  have maxi: "m \<in> set (registry_magazines s)
          \<and> (\<forall>m'. length (Magazine_articles s m') \<le> length (Magazine_articles s m))"
    if "Magazine_top_publisher s = Inr (Some m)" for m
  proof -
    from that have "first_top_magazine s = Some m"
      by (simp add: top_publisher_find)
    from first_top_magazine_SomeD [OF this] show ?thesis
      by auto
  qed
  have scen: "Magazine_top_publisher s = Inr (Some A)"
    if h: "length (Magazine_articles s A) = 3 \<and> length (Magazine_articles s B) = 1
        \<and> (\<forall>m'. m' \<noteq> A \<and> m' \<noteq> B \<longrightarrow> Magazine_articles s m' = [])"
  proof -
    from h have "Magazine_articles s A \<noteq> []"
      by auto
    then have "Article_all s \<noteq> []"
      by (auto simp: Magazine_articles_def)
    with none ret obtain m where m: "Magazine_top_publisher s = Inr (Some m)"
      by (metis option.exhaust)
    from maxi [OF m] have le: "length (Magazine_articles s A) \<le> length (Magazine_articles s m)"
      by blast
    have "m = A"
    proof (rule ccontr)
      assume "m \<noteq> A"
      then have "length (Magazine_articles s m) \<le> 1"
        using h by (cases "m = B") auto
      with le h show False by simp
    qed
    with m show ?thesis by simp
  qed
  from none ret maxi scen show ?thesis
    by blast
qed

theorem top_publisher_maximal_witness:
  "length (Magazine_articles example_state 0) = 3
   \<and> length (Magazine_articles example_state 1) = 1
   \<and> registry_magazines example_state = [0, 0, 1, 0]
   \<and> Magazine_top_publisher example_state = Inr (Some 0)
   \<and> 0 \<in> set (registry_magazines example_state)
   \<and> Magazine_top_publisher init_state = Inr None"
proof -
  have 1: "length (Magazine_articles example_state 0) = 3"
    by (simp add: Magazine_articles_def Article_magazine_def example_state_def)
  have 2: "length (Magazine_articles example_state 1) = 1"
    by (simp add: Magazine_articles_def Article_magazine_def example_state_def)
  have 3: "\<forall>m'. m' \<noteq> 0 \<and> m' \<noteq> 1 \<longrightarrow> Magazine_articles example_state m' = []"
    by (simp add: Magazine_articles_def Article_magazine_def example_state_def)
  have 4: "Article_all init_state = []"
    by (simp add: init_state_def)
  from 1 2 3 top_publisher_maximal [of example_state 0 1]
  have 5: "Magazine_top_publisher example_state = Inr (Some 0)"
    by blast
  with top_publisher_maximal [of example_state 0 1]
  have 6: "0 \<in> set (registry_magazines example_state)"
    by blast
  from 4 top_publisher_maximal [of init_state 0 1]
  have 7: "Magazine_top_publisher init_state = Inr None"
    by blast
  have 8: "registry_magazines example_state = [0, 0, 1, 0]"
    by (simp add: registry_magazines_def Article_magazine_def example_state_def)
  from 1 2 8 5 6 7 show ?thesis
    by blast
qed

text \<open>
  C10. \<^verbatim>\<open>Magazine.top_publisher()\<close> is a function of the magazines of the registry in
  registry order: it returns the first magazine, in the order of \<^verbatim>\<open>Article.all\<close>, that
  no magazine exceeds in number of articles. So when \<^verbatim>\<open>Article.all\<close> is not empty the
  magazine returned has the maximal count, every magazine whose first article comes
  earlier has strictly fewer articles, and two registries with the same magazines in the
  same order give the same answer.
\<close>

theorem top_publisher_first_seen:
  "Magazine_top_publisher s = Inr (first_top_magazine s)
   \<and> (Article_all s \<noteq> [] \<longrightarrow>
        (\<exists>pre m post.
           Magazine_top_publisher s = Inr (Some m)
           \<and> registry_magazines s = pre @ m # post
           \<and> (\<forall>x \<in> set pre. length (Magazine_articles s x) < length (Magazine_articles s m))
           \<and> (\<forall>m'. length (Magazine_articles s m') \<le> length (Magazine_articles s m))))
   \<and> (registry_magazines s = registry_magazines s' \<longrightarrow>
        Magazine_top_publisher s = Magazine_top_publisher s')"
proof -
  have split: "\<exists>pre m post.
           Magazine_top_publisher s = Inr (Some m)
           \<and> registry_magazines s = pre @ m # post
           \<and> (\<forall>x \<in> set pre. length (Magazine_articles s x) < length (Magazine_articles s m))
           \<and> (\<forall>m'. length (Magazine_articles s m') \<le> length (Magazine_articles s m))"
    if "Article_all s \<noteq> []"
  proof -
    from that obtain m where m: "first_top_magazine s = Some m"
      using first_top_magazine_None_iff [of s] by blast
    from first_top_magazine_SomeD [OF m] m show ?thesis
      by (simp add: top_publisher_find)
  qed
  have same: "Magazine_top_publisher s = Magazine_top_publisher s'"
    if "registry_magazines s = registry_magazines s'"
    using that
    by (simp add: top_publisher_find first_top_magazine_def length_Magazine_articles)
  from split same show ?thesis
    by (simp add: top_publisher_find)
qed

theorem top_publisher_first_seen_witness:
  "Article_all tie_state \<noteq> []
   \<and> registry_magazines tie_state = [1, 0, 0, 1]
   \<and> length (Magazine_articles tie_state 0) = length (Magazine_articles tie_state 1)
   \<and> first_top_magazine tie_state = Some 1
   \<and> Magazine_top_publisher tie_state = Inr (Some 1)
   \<and> registry_magazines (tie_state\<lparr>authors := []\<rparr>) = registry_magazines tie_state
   \<and> Magazine_top_publisher (tie_state\<lparr>authors := []\<rparr>) = Inr (Some 1)"
proof -
  have 1: "Article_all tie_state \<noteq> []"
    by (simp add: tie_state_def)
  have 2: "registry_magazines tie_state = [1, 0, 0, 1]"
    by (simp add: registry_magazines_def Article_magazine_def tie_state_def)
  have 3: "length (Magazine_articles tie_state 0) = length (Magazine_articles tie_state 1)"
    by (simp add: Magazine_articles_def Article_magazine_def tie_state_def)
  have 4: "first_top_magazine tie_state = Some 1"
    by (simp add: first_top_magazine_def 2 length_Magazine_articles)
  have 5: "registry_magazines (tie_state\<lparr>authors := []\<rparr>) = registry_magazines tie_state"
    by (simp add: registry_magazines_def Article_magazine_def)
  note t = top_publisher_first_seen [of tie_state "tie_state\<lparr>authors := []\<rparr>"]
  from t 4 have 6: "Magazine_top_publisher tie_state = Inr (Some 1)"
    by simp
  from t have "registry_magazines tie_state = registry_magazines (tie_state\<lparr>authors := []\<rparr>)
      \<Longrightarrow> Magazine_top_publisher tie_state = Magazine_top_publisher (tie_state\<lparr>authors := []\<rparr>)"
    by blast
  from this [OF 5 [symmetric]] 6
  have 7: "Magazine_top_publisher (tie_state\<lparr>authors := []\<rparr>) = Inr (Some 1)"
    by simp
  from 1 2 3 4 6 5 7 show ?thesis
    by blast
qed

section \<open>Authors with more than two articles in a magazine\<close>

lemma distinct_singleton: "distinct xs \<Longrightarrow> set xs = {x} \<Longrightarrow> xs = [x]"
proof (cases xs)
  case Nil
  assume "set xs = {x}"
  with Nil show ?thesis by simp
next
  case (Cons y ys)
  assume d: "distinct xs" and s: "set xs = {x}"
  from s Cons have y: "y = x" by auto
  from d s Cons y have sub: "set ys \<subseteq> {x}" and notin: "x \<notin> set ys" by auto
  have "ys = []"
  proof (rule ccontr)
    assume "ys \<noteq> []"
    then obtain z where z: "z \<in> set ys" by (cases ys) auto
    with sub have "z = x" by auto
    with z notin show False by simp
  qed
  with Cons y show ?thesis by simp
qed

lemma article_count_eq:
  "article_count s m a = count_list (map (Article_author s) (Magazine_articles s m)) a"
  by (simp add: article_count_def Magazine_articles_def count_list_map_filter)

lemma count_loop_threshold:
  "set (map fst (filter (\<lambda>(k, c). c > n) (count_loop f [] xs))) =
     {k. k \<in> f ` set xs \<and> n < int (count_list (map f xs) k)}"
proof -
  let ?d = "count_loop f [] xs"
  have dist: "distinct (map fst ?d)"
    by (simp add: count_loop_distinct)
  have "(k, c) \<in> set ?d \<longleftrightarrow> k \<in> f ` set xs \<and> c = int (count_list (map f xs) k)" for k c
  proof
    assume "(k, c) \<in> set ?d"
    from dict_lookup_distinct [OF dist this] show "k \<in> f ` set xs \<and> c = int (count_list (map f xs) k)"
      by (simp add: count_loop_lookup split: if_splits)
  next
    assume "k \<in> f ` set xs \<and> c = int (count_list (map f xs) k)"
    then have "dict_lookup ?d k = Some c"
      by (simp add: count_loop_lookup)
    then show "(k, c) \<in> set ?d"
      by (rule dict_lookup_SomeD)
  qed
  then show ?thesis
    by (auto simp: image_iff)
qed

text \<open>
  C3. \<^verbatim>\<open>contributing_authors()\<close> returns \<^verbatim>\<open>None\<close> exactly when no author has more
  than 2 articles in this magazine; otherwise it returns a list, without repetition, of
  exactly the authors with more than 2 articles in this magazine, the count being taken
  over the articles of this magazine only. An author with exactly 3 articles in the
  magazine is in the list.
\<close>

theorem contributing_authors_spec:
  "(Magazine_contributing_authors s m = None \<longleftrightarrow> (\<forall>a. article_count s m a \<le> 2))
   \<and> (\<forall>xs. Magazine_contributing_authors s m = Some xs \<longrightarrow>
          distinct xs \<and> set xs = {a. 2 < article_count s m a})
   \<and> (article_count s m a = 3 \<longrightarrow>
          (\<exists>xs. Magazine_contributing_authors s m = Some xs \<and> a \<in> set xs))
   \<and> article_count s m a = length (filter (\<lambda>r. Article_author s r = a) (Magazine_articles s m))"
proof -
  let ?f = "Article_author s"
  let ?arts = "Magazine_articles s m"
  let ?d = "count_loop ?f [] ?arts"
  let ?result = "map fst (filter (\<lambda>(author, count). count > 2) ?d)"
  have res: "Magazine_contributing_authors s m = (if ?result \<noteq> [] then Some ?result else None)"
    by (simp add: Magazine_contributing_authors_def Let_def)
  have set_result: "set ?result = {a. 2 < article_count s m a}"
  proof -
    have "0 < count_list (map ?f ?arts) k \<Longrightarrow> k \<in> ?f ` set ?arts" for k
      using count_list_0_iff [of "map ?f ?arts" k] by auto
    then have "{k. k \<in> ?f ` set ?arts \<and> 2 < int (count_list (map ?f ?arts) k)}
        = {a. 2 < article_count s m a}"
      by (auto simp: article_count_eq)
    with count_loop_threshold [of 2 ?f ?arts] show ?thesis
      by simp
  qed
  have dist: "distinct ?result"
    by (simp add: count_loop_distinct distinct_map_filter)
  have none: "Magazine_contributing_authors s m = None \<longleftrightarrow> (\<forall>a. article_count s m a \<le> 2)"
  proof -
    have "?result = [] \<longleftrightarrow> set ?result = {}"
      by (simp only: set_empty)
    also have "\<dots> \<longleftrightarrow> (\<forall>a. article_count s m a \<le> 2)"
      unfolding set_result by (auto simp: not_less)
    finally show ?thesis
      using res by simp
  qed
  have some: "distinct xs \<and> set xs = {a. 2 < article_count s m a}"
    if "Magazine_contributing_authors s m = Some xs" for xs
  proof -
    from that res have "xs = ?result"
      by (simp split: if_splits)
    with dist set_result show ?thesis
      by simp
  qed
  have three: "\<exists>xs. Magazine_contributing_authors s m = Some xs \<and> a \<in> set xs"
    if "article_count s m a = 3"
  proof -
    from that have "\<not> article_count s m a \<le> 2"
      by simp
    then have "\<not> (\<forall>a. article_count s m a \<le> 2)"
      by blast
    with none obtain xs where xs: "Magazine_contributing_authors s m = Some xs"
      by (cases "Magazine_contributing_authors s m") auto
    from some [OF xs] that have "a \<in> set xs"
      by simp
    with xs show ?thesis by blast
  qed
  have cnt: "article_count s m a = length (filter (\<lambda>r. Article_author s r = a) ?arts)"
    by (simp add: article_count_eq count_list_map_filter)
  from none some three cnt show ?thesis
    by blast
qed

theorem contributing_authors_spec_witness:
  "article_count example_state 0 0 = 3
   \<and> Magazine_contributing_authors example_state 0 = Some [0]
   \<and> article_count example_state 1 1 = 1
   \<and> Magazine_contributing_authors example_state 1 = None"
proof -
  have 1: "article_count example_state 0 0 = 3"
    by (simp add: article_count_def Article_magazine_def Article_author_def example_state_def)
  have 2: "\<forall>a. article_count example_state 1 a \<le> 2"
    by (simp add: article_count_def Article_magazine_def Article_author_def example_state_def)
  have 3: "article_count example_state 1 1 = 1"
    by (simp add: article_count_def Article_magazine_def Article_author_def example_state_def)
  have 4: "{a. 2 < article_count example_state 0 a} = {0}"
    by (auto simp: article_count_def Article_magazine_def Article_author_def example_state_def
        split: if_splits)
  note t0 = contributing_authors_spec [of example_state 0 0]
  note t1 = contributing_authors_spec [of example_state 1 1]
  from t0 1 obtain xs where xs: "Magazine_contributing_authors example_state 0 = Some xs"
    by blast
  with t0 4 have "distinct xs \<and> set xs = {0}"
    by simp
  then have "xs = [0]"
    by (simp add: distinct_singleton)
  with xs have 5: "Magazine_contributing_authors example_state 0 = Some [0]"
    by simp
  from t1 2 have 6: "Magazine_contributing_authors example_state 1 = None"
    by blast
  from 1 5 3 6 show ?thesis
    by blast
qed

section \<open>Topic areas of an author\<close>

text \<open>
  C9. \<^verbatim>\<open>author.topic_areas()\<close> always returns; the result is \<^verbatim>\<open>None\<close> exactly when
  no article of \<^verbatim>\<open>Article.all\<close> has this author, and otherwise it is a collection,
  without repetition, of exactly the categories of the magazines of those articles of
  \<^verbatim>\<open>Article.all\<close> whose author is this author. When exactly one article of the
  registry has this author, the result has the one element that is the category of that
  article's magazine. (Python returns the collection as a list, \<^verbatim>\<open>list(set(...))\<close>,
  in no fixed order.)
\<close>

theorem topic_areas_spec:
  "(\<exists>res. Author_topic_areas s a res)
   \<and> (\<forall>res. Author_topic_areas s a res \<longrightarrow>
          (res = None \<longleftrightarrow> (\<forall>r \<in> set (Article_all s). Article_author s r \<noteq> a)))
   \<and> (\<forall>ys. Author_topic_areas s a (Some ys) \<longrightarrow>
          distinct ys
          \<and> set ys = {c. \<exists>r \<in> set (Article_all s).
                         Article_author s r = a
                         \<and> c = Magazine_category s (Article_magazine s r)})
   \<and> (\<forall>pre r post.
          Article_all s = pre @ r # post \<and> Article_author s r = a
          \<and> (\<forall>x \<in> set pre \<union> set post. Article_author s x \<noteq> a) \<longrightarrow>
          (\<forall>res. Author_topic_areas s a res \<longleftrightarrow>
                 res = Some [Magazine_category s (Article_magazine s r)]))
   \<and> (\<forall>res. Author_topic_areas s a res \<longrightarrow> (res = None \<longleftrightarrow> Author_articles s a = []))
   \<and> (Author_articles s a = [] \<longleftrightarrow> (\<forall>r \<in> set (Article_all s). Article_author s r \<noteq> a))
   \<and> (\<forall>ys. Author_topic_areas s a (Some ys) \<longrightarrow>
          distinct ys
          \<and> set ys = (\<lambda>r. Magazine_category s (Article_magazine s r)) ` set (Author_articles s a))
   \<and> (\<forall>r. Author_articles s a = [r] \<longrightarrow>
          (\<forall>res. Author_topic_areas s a res \<longleftrightarrow>
                 res = Some [Magazine_category s (Article_magazine s r)]))"
proof -
  let ?c = "\<lambda>r. Magazine_category s (Article_magazine s r)"
  let ?arts = "Author_articles s a"
  have ex: "\<exists>res. Author_topic_areas s a res"
  proof (cases "?arts = []")
    case True
    then have "Author_topic_areas s a None"
      by (simp add: Author_topic_areas_def)
    then show ?thesis ..
  next
    case False
    then have "Author_topic_areas s a (Some (remdups (map ?c ?arts)))"
      by (simp add: Author_topic_areas_def list_of_set_def)
    then show ?thesis ..
  qed
  have none: "res = None \<longleftrightarrow> ?arts = []" if "Author_topic_areas s a res" for res
    using that by (cases res) (auto simp: Author_topic_areas_def Let_def split: if_splits)
  have empty: "?arts = [] \<longleftrightarrow> (\<forall>r \<in> set (Article_all s). Article_author s r \<noteq> a)"
    by (simp add: Author_articles_def filter_empty_conv)
  have some: "distinct ys \<and> set ys = ?c ` set ?arts" if "Author_topic_areas s a (Some ys)" for ys
    using that by (auto simp: Author_topic_areas_def Let_def list_of_set_def split: if_splits)
  have one: "Author_topic_areas s a res \<longleftrightarrow> res = Some [?c r]" if r: "?arts = [r]" for r res
  proof (cases res)
    case None
    with r show ?thesis
      by (simp add: Author_topic_areas_def)
  next
    case (Some ys)
    have "distinct ys \<and> set ys = {?c r} \<longleftrightarrow> ys = [?c r]"
      using distinct_singleton [of ys "?c r"] by auto
    with Some r show ?thesis
      by (simp add: Author_topic_areas_def list_of_set_def)
  qed
  have img: "?c ` set ?arts =
      {c. \<exists>r \<in> set (Article_all s). Article_author s r = a \<and> c = ?c r}"
    by (auto simp: Author_articles_def)
  have none_reg: "res = None \<longleftrightarrow> (\<forall>r \<in> set (Article_all s). Article_author s r \<noteq> a)"
    if "Author_topic_areas s a res" for res
    using none [OF that] empty by simp
  have some_reg: "distinct ys \<and>
      set ys = {c. \<exists>r \<in> set (Article_all s). Article_author s r = a \<and> c = ?c r}"
    if "Author_topic_areas s a (Some ys)" for ys
    using some [OF that] img by simp
  have one_reg: "Author_topic_areas s a res \<longleftrightarrow> res = Some [?c r]"
    if h: "Article_all s = pre @ r # post \<and> Article_author s r = a
          \<and> (\<forall>x \<in> set pre \<union> set post. Article_author s x \<noteq> a)" for pre r post res
  proof -
    from h have "filter (\<lambda>x. Article_author s x = a) pre = []"
      and "filter (\<lambda>x. Article_author s x = a) post = []"
      by (auto simp: filter_empty_conv)
    with h have "?arts = [r]"
      by (simp add: Author_articles_def)
    from one [OF this] show ?thesis .
  qed
  have c2: "\<forall>res. Author_topic_areas s a res \<longrightarrow>
          (res = None \<longleftrightarrow> (\<forall>r \<in> set (Article_all s). Article_author s r \<noteq> a))"
    using none_reg by blast
  have c3: "\<forall>ys. Author_topic_areas s a (Some ys) \<longrightarrow>
          distinct ys
          \<and> set ys = {c. \<exists>r \<in> set (Article_all s).
                         Article_author s r = a
                         \<and> c = Magazine_category s (Article_magazine s r)}"
    using some_reg by blast
  have c4: "\<forall>pre r post.
          Article_all s = pre @ r # post \<and> Article_author s r = a
          \<and> (\<forall>x \<in> set pre \<union> set post. Article_author s x \<noteq> a) \<longrightarrow>
          (\<forall>res. Author_topic_areas s a res \<longleftrightarrow>
                 res = Some [Magazine_category s (Article_magazine s r)])"
  proof (intro allI impI)
    fix pre r post res
    assume "Article_all s = pre @ r # post \<and> Article_author s r = a
          \<and> (\<forall>x \<in> set pre \<union> set post. Article_author s x \<noteq> a)"
    then show "Author_topic_areas s a res \<longleftrightarrow>
                 res = Some [Magazine_category s (Article_magazine s r)]"
      by (rule one_reg)
  qed
  have c5: "\<forall>res. Author_topic_areas s a res \<longrightarrow> (res = None \<longleftrightarrow> Author_articles s a = [])"
    using none by blast
  have c7: "\<forall>ys. Author_topic_areas s a (Some ys) \<longrightarrow>
          distinct ys
          \<and> set ys = (\<lambda>r. Magazine_category s (Article_magazine s r)) ` set (Author_articles s a)"
    using some by blast
  have c8: "\<forall>r. Author_articles s a = [r] \<longrightarrow>
          (\<forall>res. Author_topic_areas s a res \<longleftrightarrow>
                 res = Some [Magazine_category s (Article_magazine s r)])"
    using one by blast
  show ?thesis
    by (intro conjI ex c2 c3 c4 c5 empty c7 c8)
qed

theorem topic_areas_spec_witness:
  "Article_all example_state = [0, 1] @ 2 # [3]
   \<and> Article_author example_state 2 = 1
   \<and> Author_topic_areas example_state 1 (Some [PyStr ''Tech''])
   \<and> \<not> Author_topic_areas example_state 1 None
   \<and> \<not> Author_topic_areas example_state 1 (Some [PyStr ''Fashion'', PyStr ''Tech''])
   \<and> Author_articles example_state 7 = []
   \<and> \<not> Author_topic_areas example_state 7 (Some [])
   \<and> Author_topic_areas tie_state 0 (Some [PyStr ''Fashion'', PyStr ''Tech''])
   \<and> \<not> Author_topic_areas tie_state 0 (Some [PyStr ''Tech'', PyStr ''Fashion'', PyStr ''Tech''])"
proof -
  have 0: "Article_all example_state = [0, 1] @ 2 # [3]"
    by (simp add: example_state_def)
  have 1: "Article_author example_state 2 = 1"
    by (simp add: Article_author_def example_state_def)
  have others: "\<forall>x \<in> set [0, 1] \<union> set [3]. Article_author example_state x \<noteq> 1"
    by (simp add: Article_author_def example_state_def)
  have 2: "Magazine_category example_state (Article_magazine example_state 2) = PyStr ''Tech''"
    by (simp add: Magazine_category_def Article_magazine_def example_state_def)
  have 3: "Author_articles example_state 7 = []"
    by (simp add: Author_articles_def Article_author_def example_state_def)
  have 4: "Author_topic_areas tie_state 0 (Some [PyStr ''Fashion'', PyStr ''Tech''])"
    by (simp add: Author_topic_areas_def Author_articles_def Article_author_def list_of_set_def
        Magazine_category_def Article_magazine_def tie_state_def insert_commute)
  note e1 = topic_areas_spec [of example_state 1, THEN conjunct2, THEN conjunct2,
      THEN conjunct2, THEN conjunct1, rule_format, of "[0, 1]" 2 "[3]"]
  note e7 = topic_areas_spec [of example_state 7, THEN conjunct2, THEN conjunct2,
      THEN conjunct2, THEN conjunct2, THEN conjunct1, rule_format, of "Some []"]
  note t0 = topic_areas_spec [of tie_state 0, THEN conjunct2, THEN conjunct2,
      THEN conjunct1, rule_format,
      of "[PyStr ''Tech'', PyStr ''Fashion'', PyStr ''Tech'']"]
  from 0 1 others have pre: "Article_all example_state = [0, 1] @ 2 # [3]
      \<and> Article_author example_state 2 = 1
      \<and> (\<forall>x \<in> set [0, 1] \<union> set [3]. Article_author example_state x \<noteq> 1)"
    by simp
  have iff: "Author_topic_areas example_state 1 res \<longleftrightarrow>
      res = Some [Magazine_category example_state (Article_magazine example_state 2)]" for res
    by (rule e1 [OF pre])
  from iff 2 have 5: "Author_topic_areas example_state 1 (Some [PyStr ''Tech''])"
    by simp
  from iff 2 have 6: "\<not> Author_topic_areas example_state 1 None"
    by simp
  from iff 2 have 9: "\<not> Author_topic_areas example_state 1 (Some [PyStr ''Fashion'', PyStr ''Tech''])"
    by simp
  from e7 3 have 7: "\<not> Author_topic_areas example_state 7 (Some [])"
    by auto
  have "\<not> distinct [PyStr ''Tech'', PyStr ''Fashion'', PyStr ''Tech'']"
    by simp
  with t0 have 8:
    "\<not> Author_topic_areas tie_state 0 (Some [PyStr ''Tech'', PyStr ''Fashion'', PyStr ''Tech''])"
    by blast
  show ?thesis
    by (intro conjI 0 1 5 6 9 3 7 4 8)
qed


end
